theory Spec2Isabelle
  imports Complex_Main "HOL-Library.Word"
begin

section \<open>The telemetry forwarder of \<^verbatim>\<open>telemetry_forwarder.py\<close>\<close>

text \<open>
  The model follows \<^verbatim>\<open>SystemIdTelemetryForwarder\<close> and \<^verbatim>\<open>MultiDroneForwarder\<close>.
  Python integers are \<open>int\<close>; the readings of \<^verbatim>\<open>time.time()\<close> are idealised as
  \<open>real\<close>. Everything the environment decides (what \<^verbatim>\<open>recv_match\<close> returns or
  raises, whether \<^verbatim>\<open>sendto\<close> raises, what the clock reads, when another thread calls
  \<^verbatim>\<open>stop()\<close>) is an input of the model; everything the code does to the outside
  (logger calls, datagrams sent, sleeps, threads started) is recorded in a list of effects.
\<close>

subsection \<open>Data\<close>

type_synonym bytes = "8 word list"

text \<open>A decoded MAVLink message, as far as the forwarder uses it:
  \<^verbatim>\<open>msg.get_srcSystem()\<close> and \<^verbatim>\<open>msg.get_msgbuf()\<close>.\<close>

record frame =
  get_srcSystem :: int
  get_msgbuf :: bytes

text \<open>Instances of Python's \<^verbatim>\<open>Exception\<close>: the division error of the interpreter,
  and whatever the socket and MAVLink libraries raise, with its message.\<close>

datatype py_exception = ZeroDivisionError | Raised string

record forwarder =
  px4_port :: int
  broadcast_port :: int
  expected_sysid :: int
  drone_id :: int
  running :: bool
  thread :: "nat option"
  mav_conn :: "int option"
  packets_received :: int
  packets_forwarded :: int
  packets_filtered :: int
  bytes_forwarded :: int
  start_time :: "real option"
  system_ids_seen :: "int set"

text \<open>The arguments of each logger call of the source (the f-string's layout is left out).\<close>

datatype log_message =
    Msg_forwarder_started int int int int
  | Msg_forwarder_stopped int
  | Msg_listening int int
  | Msg_broadcasting int int
  | Msg_filtering int int
  | Msg_no_data int int
  | Msg_forward_error int py_exception
  | Msg_stats int int real int real "int list"
  | Msg_starting_all
  | Msg_started_all nat
  | Msg_stopping_all
  | Msg_all_stopped

datatype log_level = INFO | WARNING | ERROR

datatype effect =
    Log log_level log_message
  | Sendto bytes int
  | Sleep real
  | Thread_start
  | Thread_join real
  | Socket_close

text \<open>What one pass of the loop body meets: the result of \<^verbatim>\<open>recv_match\<close>; for a
  message, the result of \<^verbatim>\<open>sendto\<close> (consulted only when the message is forwarded),
  the clock reading of line 125 and the one taken inside \<^verbatim>\<open>_log_stats\<close>.\<close>

datatype send_result = Send_ok | Send_raises py_exception

datatype iteration =
    Recv_timeout
  | Recv_raises py_exception
  | Recv_msg frame send_result real real

text \<open>\<open>Stop_called\<close>: another thread executes \<^verbatim>\<open>self.running = False\<close>. The loop reads
  the flag only at the head of an iteration, so a stop request that arrives during a pending
  receive is placed after that iteration.\<close>

datatype event = Iteration iteration | Stop_called

text \<open>The forwarder object together with the local variables of \<^verbatim>\<open>_forward_loop\<close>
  and the effects produced so far.\<close>

record loop_state =
  self :: forwarder
  consecutive_timeouts :: int
  last_stats_time :: real
  out :: "effect list"

text \<open>How the thread function ends: an exception escapes it, the \<^verbatim>\<open>while\<close> loop is
  left and the function returns, or the events are used up with the loop still going.\<close>

datatype outcome =
    Uncaught py_exception forwarder "effect list"
  | Returned loop_state
  | Looping loop_state

record stats =
  stats_drone_id :: int
  stats_expected_sysid :: int
  stats_packets_received :: int
  stats_packets_forwarded :: int
  stats_packets_filtered :: int
  filter_percentage :: real
  stats_bytes_forwarded :: int
  forward_rate_hz :: real
  bandwidth_kbps :: real
  stats_system_ids_seen :: "int list"

record config =
  cfg_drone_id :: int
  cfg_px4_port :: int
  cfg_broadcast_port :: int
  cfg_expected_sysid :: int

subsection \<open>Python's division and conditional time difference\<close>

definition py_truediv :: "real \<Rightarrow> real \<Rightarrow> py_exception + real" where
  "py_truediv a b = (if b = 0 then Inl ZeroDivisionError else Inr (a / b))"

definition bind_exc :: "py_exception + 'a \<Rightarrow> ('a \<Rightarrow> py_exception + 'b) \<Rightarrow> py_exception + 'b" where
  "bind_exc r f = (case r of Inl e \<Rightarrow> Inl e | Inr x \<Rightarrow> f x)"

text \<open>\<^verbatim>\<open>time.time() - self.start_time if self.start_time else 0\<close>: the start time is
  falsy when it is \<^verbatim>\<open>None\<close> or \<^verbatim>\<open>0.0\<close>.\<close>

definition duration_since :: "real option \<Rightarrow> real \<Rightarrow> real" where
  "duration_since st now =
     (case st of None \<Rightarrow> 0 | Some t \<Rightarrow> (if t \<noteq> 0 then now - t else 0))"

subsection \<open>\<^verbatim>\<open>SystemIdTelemetryForwarder\<close>\<close>

definition SystemIdTelemetryForwarder :: "int \<Rightarrow> int \<Rightarrow> int \<Rightarrow> int \<Rightarrow> forwarder" where
  "SystemIdTelemetryForwarder px4 bcast sysid did =
     \<lparr> px4_port = px4, broadcast_port = bcast, expected_sysid = sysid, drone_id = did,
       running = False, thread = None, mav_conn = None,
       packets_received = 0, packets_forwarded = 0, packets_filtered = 0,
       bytes_forwarded = 0, start_time = None, system_ids_seen = {} \<rparr>"

text \<open>\<^verbatim>\<open>start\<close>: the new \<^verbatim>\<open>Thread\<close> object is identified by the number of threads
  this instance created before it.\<close>

definition start :: "forwarder \<Rightarrow> real \<Rightarrow> forwarder \<times> effect list" where
  "start s now =
     (if running s then (s, [])
      else (s\<lparr> running := True, start_time := Some now,
                thread := Some (case thread s of None \<Rightarrow> 0 | Some n \<Rightarrow> Suc n) \<rparr>,
            [Thread_start,
             Log INFO (Msg_forwarder_started (drone_id s) (px4_port s) (broadcast_port s)
                         (expected_sysid s))]))"

definition stop :: "forwarder \<Rightarrow> forwarder \<times> effect list" where
  "stop s =
     (s\<lparr> running := False \<rparr>,
      (if thread s \<noteq> None then [Thread_join 2] else [])
        @ [Log INFO (Msg_forwarder_stopped (drone_id s))])"

definition log_stats :: "forwarder \<Rightarrow> real \<Rightarrow> py_exception + effect list" where
  "log_stats s now =
     (let duration = duration_since (start_time s) now in
      if duration > 0 then
        bind_exc (py_truediv (real_of_int (packets_forwarded s)) duration) (\<lambda>forward_rate.
        bind_exc (if packets_received s > 0
                  then bind_exc (py_truediv (real_of_int (packets_filtered s))
                                            (real_of_int (packets_received s)))
                                (\<lambda>q. Inr (q * 100))
                  else Inr 0) (\<lambda>filter_pct.
        Inr [Log INFO (Msg_stats (drone_id s) (packets_forwarded s) forward_rate
                         (packets_filtered s) filter_pct
                         (sorted_list_of_set (system_ids_seen s)))]))
      else Inr [])"

definition get_stats :: "forwarder \<Rightarrow> real \<Rightarrow> py_exception + stats" where
  "get_stats s now =
     (let duration = duration_since (start_time s) now in
      bind_exc (if packets_received s > 0
                then bind_exc (py_truediv (real_of_int (packets_filtered s))
                                          (real_of_int (packets_received s)))
                              (\<lambda>q. Inr (q * 100))
                else Inr 0) (\<lambda>filter_pct.
      bind_exc (if duration > 0
                then py_truediv (real_of_int (packets_forwarded s)) duration
                else Inr 0) (\<lambda>rate.
      bind_exc (if duration > 0
                then py_truediv (real_of_int (bytes_forwarded s) * 8 / 1024) duration
                else Inr 0) (\<lambda>bandwidth.
      Inr \<lparr> stats_drone_id = drone_id s,
            stats_expected_sysid = expected_sysid s,
            stats_packets_received = packets_received s,
            stats_packets_forwarded = packets_forwarded s,
            stats_packets_filtered = packets_filtered s,
            filter_percentage = filter_pct,
            stats_bytes_forwarded = bytes_forwarded s,
            forward_rate_hz = rate,
            bandwidth_kbps = bandwidth,
            stats_system_ids_seen = sorted_list_of_set (system_ids_seen s) \<rparr>))))"

subsection \<open>The loop body\<close>

text \<open>Lines 109 to 122: forward a matching message, count a foreign one. A raise of
  \<^verbatim>\<open>sendto\<close> leaves the state as it is at that line.\<close>

definition filter_step :: "loop_state \<Rightarrow> frame \<Rightarrow> send_result \<Rightarrow> py_exception \<times> loop_state + loop_state" where
  "filter_step st msg sr =
     (if get_srcSystem msg = expected_sysid (self st) then
        (case sr of
           Send_raises e \<Rightarrow> Inl (e, st)
         | Send_ok \<Rightarrow>
             Inr (st\<lparr> out := out st @ [Sendto (get_msgbuf msg) (broadcast_port (self st))],
                      self := (self st)\<lparr>
                        packets_forwarded := packets_forwarded (self st) + 1,
                        bytes_forwarded := bytes_forwarded (self st) + int (length (get_msgbuf msg)) \<rparr> \<rparr>))
      else Inr (st\<lparr> self := (self st)\<lparr> packets_filtered := packets_filtered (self st) + 1 \<rparr> \<rparr>))"

text \<open>Lines 124 to 128.\<close>

definition stats_step :: "loop_state \<Rightarrow> real \<Rightarrow> real \<Rightarrow> py_exception \<times> loop_state + loop_state" where
  "stats_step st current_time log_time =
     (if current_time - last_stats_time st \<ge> 10 then
        (case log_stats (self st) log_time of
           Inl e \<Rightarrow> Inl (e, st)
         | Inr es \<Rightarrow> Inr (st\<lparr> out := out st @ es, last_stats_time := current_time \<rparr>))
      else Inr st)"

text \<open>The body of the \<^verbatim>\<open>try\<close> block, lines 89 to 128: \<open>Inl\<close> carries a raised exception
  and the state it was raised in.\<close>

fun try_body :: "loop_state \<Rightarrow> iteration \<Rightarrow> py_exception \<times> loop_state + loop_state" where
  "try_body st Recv_timeout =
     (let c = consecutive_timeouts st + 1 in
      if c \<ge> 10
      then Inr (st\<lparr> out := out st @ [Log WARNING (Msg_no_data (drone_id (self st)) c)],
                    consecutive_timeouts := 0 \<rparr>)
      else Inr (st\<lparr> consecutive_timeouts := c \<rparr>))"
| "try_body st (Recv_raises e) = Inl (e, st)"
| "try_body st (Recv_msg msg sr current_time log_time) =
     (let st1 = st\<lparr> consecutive_timeouts := 0,
                    self := (self st)\<lparr>
                      packets_received := packets_received (self st) + 1,
                      system_ids_seen := insert (get_srcSystem msg) (system_ids_seen (self st)) \<rparr> \<rparr>
      in case filter_step st1 msg sr of
           Inl x \<Rightarrow> Inl x
         | Inr st2 \<Rightarrow> stats_step st2 current_time log_time)"

text \<open>The \<^verbatim>\<open>except Exception\<close> clause, lines 130 to 132.\<close>

definition handler :: "py_exception \<Rightarrow> loop_state \<Rightarrow> loop_state" where
  "handler e st =
     st\<lparr> out := out st @ [Log ERROR (Msg_forward_error (drone_id (self st)) e), Sleep (1 / 10)] \<rparr>"

definition loop_body :: "loop_state \<Rightarrow> iteration \<Rightarrow> loop_state" where
  "loop_body st it = (case try_body st it of Inl (e, st') \<Rightarrow> handler e st' | Inr st' \<Rightarrow> st')"

definition close_sock :: "loop_state \<Rightarrow> loop_state" where
  "close_sock st = st\<lparr> out := out st @ [Socket_close] \<rparr>"

text \<open>\<^verbatim>\<open>while self.running\<close>, lines 87 to 134, driven by the events of the environment.\<close>

fun forward_while :: "loop_state \<Rightarrow> event list \<Rightarrow> outcome" where
  "forward_while st [] = (if running (self st) then Looping st else Returned (close_sock st))"
| "forward_while st (Stop_called # evs) =
     forward_while (st\<lparr> self := (self st)\<lparr> running := False \<rparr> \<rparr>) evs"
| "forward_while st (Iteration it # evs) =
     (if running (self st) then forward_while (loop_body st it) evs
      else Returned (close_sock st))"

text \<open>Lines 84 and 85, after the three messages of lines 80 to 82.\<close>

definition loop_init :: "forwarder \<Rightarrow> real \<Rightarrow> loop_state" where
  "loop_init s t0 =
     \<lparr> self = s\<lparr> mav_conn := Some (px4_port s) \<rparr>,
       consecutive_timeouts = 0,
       last_stats_time = t0,
       out = [Log INFO (Msg_listening (drone_id s) (px4_port s)),
              Log INFO (Msg_broadcasting (drone_id s) (broadcast_port s)),
              Log INFO (Msg_filtering (drone_id s) (expected_sysid s))] \<rparr>"

text \<open>\<^verbatim>\<open>_forward_loop\<close>: the connection of line 75 is made outside the \<^verbatim>\<open>try\<close>
  block, so an exception it raises escapes the thread function.\<close>

definition forward_loop :: "forwarder \<Rightarrow> py_exception + unit \<Rightarrow> real \<Rightarrow> event list \<Rightarrow> outcome" where
  "forward_loop s conn t0 evs =
     (case conn of
        Inl e \<Rightarrow> Uncaught e s []
      | Inr _ \<Rightarrow> forward_while (loop_init s t0) evs)"

subsection \<open>\<^verbatim>\<open>MultiDroneForwarder\<close>\<close>

definition MultiDroneForwarder :: "config list \<Rightarrow> forwarder list" where
  "MultiDroneForwarder cfgs =
     map (\<lambda>cfg. SystemIdTelemetryForwarder (cfg_px4_port cfg) (cfg_broadcast_port cfg)
                  (cfg_expected_sysid cfg) (cfg_drone_id cfg)) cfgs"

text \<open>The \<^verbatim>\<open>for\<close> loop of \<^verbatim>\<open>start_all\<close>; \<open>clock i\<close> is the reading of
  \<^verbatim>\<open>time.time()\<close> in the \<open>i\<close>-th call of \<^verbatim>\<open>start\<close>.\<close>

fun start_each :: "nat \<Rightarrow> (nat \<Rightarrow> real) \<Rightarrow> forwarder list \<Rightarrow> forwarder list \<times> effect list" where
  "start_each i clock [] = ([], [])"
| "start_each i clock (f # fs) =
     (let (f', es) = start f (clock i);
          (fs', es') = start_each (Suc i) clock fs
      in (f' # fs', es @ [Sleep 1] @ es'))"

definition start_all :: "forwarder list \<Rightarrow> (nat \<Rightarrow> real) \<Rightarrow> forwarder list \<times> effect list" where
  "start_all fs clock =
     (let (fs', es) = start_each 0 clock fs
      in (fs', [Log INFO Msg_starting_all] @ es @ [Log INFO (Msg_started_all (length fs))]))"

fun stop_each :: "forwarder list \<Rightarrow> forwarder list \<times> effect list" where
  "stop_each [] = ([], [])"
| "stop_each (f # fs) =
     (let (f', es) = stop f; (fs', es') = stop_each fs in (f' # fs', es @ es'))"

definition stop_all :: "forwarder list \<Rightarrow> forwarder list \<times> effect list" where
  "stop_all fs =
     (let (fs', es) = stop_each fs
      in (fs', [Log INFO Msg_stopping_all] @ es @ [Log INFO Msg_all_stopped]))"

text \<open>The configuration of \<^verbatim>\<open>main\<close>.\<close>

definition main_config :: "config list" where
  "main_config =
     [\<lparr> cfg_drone_id = 1, cfg_px4_port = 14540, cfg_broadcast_port = 14550, cfg_expected_sysid = 1 \<rparr>,
      \<lparr> cfg_drone_id = 2, cfg_px4_port = 14541, cfg_broadcast_port = 14551, cfg_expected_sysid = 2 \<rparr>,
      \<lparr> cfg_drone_id = 3, cfg_px4_port = 14542, cfg_broadcast_port = 14552, cfg_expected_sysid = 3 \<rparr>]"

subsection \<open>Observations on runs\<close>

text \<open>The forwarder object and the effects at the end of a run of the thread function.\<close>

fun result_self :: "outcome \<Rightarrow> forwarder" where
  "result_self (Uncaught e s es) = s"
| "result_self (Returned st) = self st"
| "result_self (Looping st) = self st"

fun result_out :: "outcome \<Rightarrow> effect list" where
  "result_out (Uncaught e s es) = es"
| "result_out (Returned st) = out st"
| "result_out (Looping st) = out st"

text \<open>The datagrams handed to \<^verbatim>\<open>sendto\<close>, with their destination port, in order.\<close>

fun sent_datagrams :: "effect list \<Rightarrow> (bytes \<times> int) list" where
  "sent_datagrams [] = []"
| "sent_datagrams (Sendto b p # es) = (b, p) # sent_datagrams es"
| "sent_datagrams (_ # es) = sent_datagrams es"

text \<open>The records written through the logger at one level.\<close>

fun logged :: "log_level \<Rightarrow> effect list \<Rightarrow> log_message list" where
  "logged lv [] = []"
| "logged lv (Log lv' m # es) = (if lv' = lv then m # logged lv es else logged lv es)"
| "logged lv (_ # es) = logged lv es"

fun is_stats :: "log_message \<Rightarrow> bool" where
  "is_stats (Msg_stats _ _ _ _ _ _) = True"
| "is_stats _ = False"

definition stats_lines :: "effect list \<Rightarrow> log_message list" where
  "stats_lines es = filter is_stats (logged INFO es)"

text \<open>The messages received in a list of iterations, in order.\<close>

fun frames_of :: "iteration list \<Rightarrow> frame list" where
  "frames_of [] = []"
| "frames_of (Recv_msg msg _ _ _ # its) = msg # frames_of its"
| "frames_of (_ # its) = frames_of its"

text \<open>The messages a forwarder with expected system id \<open>sysid\<close> hands to
  \<^verbatim>\<open>sendto\<close> with success: those of its own system whose send does not raise.\<close>

fun delivered :: "int \<Rightarrow> iteration list \<Rightarrow> frame list" where
  "delivered sysid [] = []"
| "delivered sysid (Recv_msg msg Send_ok _ _ # its) =
     (if get_srcSystem msg = sysid then msg # delivered sysid its else delivered sysid its)"
| "delivered sysid (_ # its) = delivered sysid its"

text \<open>An iteration in which the forwarder with expected system id \<open>sysid\<close> calls
  \<^verbatim>\<open>sendto\<close> and the call raises.\<close>

fun send_failed :: "int \<Rightarrow> iteration \<Rightarrow> bool" where
  "send_failed sysid (Recv_msg msg (Send_raises _) _ _) = (get_srcSystem msg = sysid)"
| "send_failed sysid _ = False"

text \<open>An iteration that ends in the \<^verbatim>\<open>except\<close> clause.\<close>

fun raises :: "int \<Rightarrow> iteration \<Rightarrow> bool" where
  "raises sysid (Recv_raises _) = True"
| "raises sysid it = send_failed sysid it"

text \<open>The iterations the loop executes: those before the first stop request, when the
  flag is set at the start.\<close>

fun executed :: "bool \<Rightarrow> event list \<Rightarrow> iteration list" where
  "executed r [] = []"
| "executed r (Stop_called # evs) = executed False evs"
| "executed r (Iteration it # evs) = (if r then it # executed r evs else [])"

definition matches :: "forwarder \<Rightarrow> frame \<Rightarrow> bool" where
  "matches s msg = (get_srcSystem msg = expected_sysid s)"

text \<open>How far \<^verbatim>\<open>packets_received\<close> is ahead of the two other packet counters.\<close>

definition gap :: "forwarder \<Rightarrow> int" where
  "gap s = packets_received s - (packets_forwarded s + packets_filtered s)"

subsection \<open>Example inputs\<close>

text \<open>The first two forwarders of \<^verbatim>\<open>main\<close>, started at clock reading 100, a short
  message from a given system, an exception of the socket layer and a clock.\<close>

definition drone1 :: forwarder where
  "drone1 = fst (start (SystemIdTelemetryForwarder 14540 14550 1 1) 100)"

definition drone2 :: forwarder where
  "drone2 = fst (start (SystemIdTelemetryForwarder 14541 14551 2 2) 100)"

definition heartbeat :: "int \<Rightarrow> frame" where
  "heartbeat sysid = \<lparr> get_srcSystem = sysid, get_msgbuf = [0xFD, 0x09, 0x00, 0x00, word_of_int sysid] \<rparr>"

definition unreachable :: py_exception where
  "unreachable = Raised ''[Errno 101] Network is unreachable''"

definition address_in_use :: py_exception where
  "address_in_use = Raised ''[Errno 98] Address already in use''"

definition wall_clock :: "nat \<Rightarrow> real" where
  "wall_clock i = 100 + real i"

text \<open>Scenario A: 100 messages, 60 from system 2 and 40 from system 0, interleaved.\<close>

definition scenario_a :: "iteration list" where
  "scenario_a =
     concat (replicate 20
       [Recv_msg (heartbeat 2) Send_ok 101 101,
        Recv_msg (heartbeat 0) Send_ok 101 101,
        Recv_msg (heartbeat 2) Send_ok 102 102,
        Recv_msg (heartbeat 0) Send_ok 102 102,
        Recv_msg (heartbeat 2) Send_ok 103 103])"


section \<open>Properties of the loop body and of the loop\<close>

lemma log_stats_total:
  "log_stats s now =
     Inr (if duration_since (start_time s) now > 0
          then [Log INFO (Msg_stats (drone_id s) (packets_forwarded s)
                  (real_of_int (packets_forwarded s) / duration_since (start_time s) now)
                  (packets_filtered s)
                  (if packets_received s > 0
                   then real_of_int (packets_filtered s) / real_of_int (packets_received s) * 100
                   else 0)
                  (sorted_list_of_set (system_ids_seen s)))]
          else [])"
  by (simp add: log_stats_def Let_def bind_exc_def py_truediv_def)

lemma sent_datagrams_append:
  "sent_datagrams (xs @ ys) = sent_datagrams xs @ sent_datagrams ys"
  by (induction xs rule: sent_datagrams.induct) simp_all

lemma logged_append: "logged lv (xs @ ys) = logged lv xs @ logged lv ys"
  by (induction lv xs rule: logged.induct) simp_all

lemma stats_lines_append: "stats_lines (xs @ ys) = stats_lines xs @ stats_lines ys"
  by (simp add: stats_lines_def logged_append)

lemma sent_datagrams_log_stats:
  "log_stats s now = Inr es \<Longrightarrow> sent_datagrams es = []"
  by (auto simp: log_stats_total split: if_splits)

lemma stats_step_cases:
  "stats_step st t1 t2 =
     Inr (if t1 - last_stats_time st \<ge> 10
          then st\<lparr> out := out st @ (if duration_since (start_time (self st)) t2 > 0
                     then [Log INFO (Msg_stats (drone_id (self st)) (packets_forwarded (self st))
                            (real_of_int (packets_forwarded (self st)) / duration_since (start_time (self st)) t2)
                            (packets_filtered (self st))
                            (if packets_received (self st) > 0
                             then real_of_int (packets_filtered (self st)) / real_of_int (packets_received (self st)) * 100
                             else 0)
                            (sorted_list_of_set (system_ids_seen (self st))))]
                     else []),
                   last_stats_time := t1 \<rparr>
          else st)"
  by (simp add: stats_step_def log_stats_total)

lemma stats_step_Inr: "\<exists>st'. stats_step st t1 t2 = Inr st' \<and> self st' = self st
   \<and> consecutive_timeouts st' = consecutive_timeouts st
   \<and> sent_datagrams (out st') = sent_datagrams (out st)
   \<and> logged ERROR (out st') = logged ERROR (out st)
   \<and> logged WARNING (out st') = logged WARNING (out st)"
  by (simp add: stats_step_cases sent_datagrams_append logged_append)

text \<open>The loop body on each kind of iteration.\<close>

lemma loop_body_timeout:
  "loop_body st Recv_timeout =
     (if consecutive_timeouts st + 1 \<ge> 10
      then st\<lparr> out := out st @ [Log WARNING (Msg_no_data (drone_id (self st)) (consecutive_timeouts st + 1))],
               consecutive_timeouts := 0 \<rparr>
      else st\<lparr> consecutive_timeouts := consecutive_timeouts st + 1 \<rparr>)"
  by (simp add: loop_body_def Let_def)

lemma loop_body_recv_raises: "loop_body st (Recv_raises e) = handler e st"
  by (simp add: loop_body_def)

lemma loop_body_send_raises:
  "get_srcSystem msg = expected_sysid (self st) \<Longrightarrow>
   loop_body st (Recv_msg msg (Send_raises e) t1 t2) =
     handler e (st\<lparr> consecutive_timeouts := 0,
                    self := (self st)\<lparr>
                      packets_received := packets_received (self st) + 1,
                      system_ids_seen := insert (get_srcSystem msg) (system_ids_seen (self st)) \<rparr> \<rparr>)"
  by (simp add: loop_body_def Let_def filter_step_def)

lemma loop_body_forward:
  "get_srcSystem msg = expected_sysid (self st) \<Longrightarrow>
   \<exists>st'. loop_body st (Recv_msg msg Send_ok t1 t2) = st'
     \<and> self st' = (self st)\<lparr>
           packets_received := packets_received (self st) + 1,
           system_ids_seen := insert (get_srcSystem msg) (system_ids_seen (self st)),
           packets_forwarded := packets_forwarded (self st) + 1,
           bytes_forwarded := bytes_forwarded (self st) + int (length (get_msgbuf msg)) \<rparr>
     \<and> consecutive_timeouts st' = 0
     \<and> sent_datagrams (out st') = sent_datagrams (out st) @ [(get_msgbuf msg, broadcast_port (self st))]"
  by (simp add: loop_body_def Let_def filter_step_def stats_step_cases sent_datagrams_append)

lemma loop_body_filter:
  "get_srcSystem msg \<noteq> expected_sysid (self st) \<Longrightarrow>
   \<exists>st'. loop_body st (Recv_msg msg sr t1 t2) = st'
     \<and> self st' = (self st)\<lparr>
           packets_received := packets_received (self st) + 1,
           system_ids_seen := insert (get_srcSystem msg) (system_ids_seen (self st)),
           packets_filtered := packets_filtered (self st) + 1 \<rparr>
     \<and> consecutive_timeouts st' = 0
     \<and> sent_datagrams (out st') = sent_datagrams (out st)"
  by (simp add: loop_body_def Let_def filter_step_def stats_step_cases sent_datagrams_append)

lemma self_handler: "self (handler e st) = self st"
  by (simp add: handler_def)

text \<open>Fields the loop body never writes.\<close>

lemma loop_body_frame:
  "running (self (loop_body st it)) = running (self st)
   \<and> expected_sysid (self (loop_body st it)) = expected_sysid (self st)
   \<and> broadcast_port (self (loop_body st it)) = broadcast_port (self st)
   \<and> drone_id (self (loop_body st it)) = drone_id (self st)
   \<and> start_time (self (loop_body st it)) = start_time (self st)
   \<and> thread (self (loop_body st it)) = thread (self st)"
proof (cases it)
  case Recv_timeout
  then show ?thesis by (simp add: loop_body_timeout)
next
  case (Recv_raises e)
  then show ?thesis by (simp add: loop_body_recv_raises self_handler)
next
  case (Recv_msg msg sr t1 t2)
  show ?thesis
  proof (cases "get_srcSystem msg = expected_sysid (self st)")
    case False
    from loop_body_filter [OF False, of sr t1 t2] show ?thesis
      unfolding Recv_msg by auto
  next
    case True
    show ?thesis
    proof (cases sr)
      case Send_ok
      from loop_body_forward [OF True, of t1 t2] show ?thesis
        unfolding Recv_msg Send_ok by auto
    next
      case (Send_raises e)
      show ?thesis unfolding Recv_msg Send_raises
        by (simp add: loop_body_send_raises [OF True] self_handler)
    qed
  qed
qed

lemma executed_False: "executed False evs = []"
proof (induction evs)
  case Nil
  then show ?case by simp
next
  case (Cons ev evs)
  then show ?case by (cases ev) simp_all
qed

text \<open>Only a raising \<^verbatim>\<open>sendto\<close> widens the gap between the counters.\<close>

lemma gap_loop_body:
  "gap (self (loop_body st it)) =
     gap (self st) + (if send_failed (expected_sysid (self st)) it then 1 else 0)"
proof (cases it)
  case Recv_timeout
  then show ?thesis by (simp add: loop_body_timeout gap_def)
next
  case (Recv_raises e)
  then show ?thesis by (simp add: loop_body_recv_raises self_handler)
next
  case (Recv_msg msg sr t1 t2)
  show ?thesis
  proof (cases "get_srcSystem msg = expected_sysid (self st)")
    case False
    from loop_body_filter [OF False, of sr t1 t2] show ?thesis
      unfolding Recv_msg using False by (cases sr) (auto simp: gap_def)
  next
    case True
    show ?thesis
    proof (cases sr)
      case Send_ok
      from loop_body_forward [OF True, of t1 t2] show ?thesis
        unfolding Recv_msg Send_ok by (auto simp: gap_def)
    next
      case (Send_raises e)
      show ?thesis unfolding Recv_msg Send_raises using True
        by (simp add: loop_body_send_raises [OF True] self_handler gap_def)
    qed
  qed
qed

lemma gap_close_sock: "gap (self (close_sock st)) = gap (self st)"
  by (simp add: close_sock_def)

lemma gap_forward_while:
  "gap (result_self (forward_while st evs)) =
     gap (self st)
       + int (length (filter (send_failed (expected_sysid (self st)))
                             (executed (running (self st)) evs)))"
proof (induction st evs rule: forward_while.induct)
  case (1 st)
  then show ?case by (simp add: gap_close_sock)
next
  case (2 st evs)
  then show ?case by (simp add: executed_False gap_def)
next
  case (3 st it evs)
  show ?case
  proof (cases "running (self st)")
    case True
    with 3 show ?thesis by (simp add: gap_loop_body loop_body_frame)
  next
    case False
    then show ?thesis by (simp add: gap_close_sock)
  qed
qed

lemma forward_while_iterations:
  "running (self st) \<Longrightarrow>
   forward_while st (map Iteration its) = Looping (foldl loop_body st its)"
  by (induction its arbitrary: st) (simp_all add: loop_body_frame)

lemma clear_running_idle:
  "\<not> running (self st) \<Longrightarrow> st\<lparr> self := (self st)\<lparr> running := False \<rparr> \<rparr> = st"
proof -
  assume nr: "\<not> running (self st)"
  have "(self st)\<lparr> running := False \<rparr> = self st"
    using nr by (cases "self st") simp
  then show ?thesis by simp
qed

lemma forward_while_idle:
  "\<not> running (self st) \<Longrightarrow> forward_while st evs = Returned (close_sock st)"
proof (induction evs)
  case Nil
  then show ?case by simp
next
  case (Cons ev evs)
  then show ?case by (cases ev) (simp_all add: clear_running_idle)
qed

text \<open>A stop request ends the loop when the flag is read next: whatever events follow,
  the function returns with the state it had then, having closed its socket. (How long
  that takes in seconds is outside this model, which has no durations.)\<close>

lemma forward_while_stop:
  "forward_while st (Stop_called # evs) =
     Returned (close_sock (st\<lparr> self := (self st)\<lparr> running := False \<rparr> \<rparr>))"
  by (simp add: forward_while_idle)

text \<open>What a run sends and counts.\<close>

lemma frames_of_Cons: "frames_of (it # its) = frames_of [it] @ frames_of its"
  by (cases it) simp_all

lemma frames_of_append: "frames_of (xs @ ys) = frames_of xs @ frames_of ys"
  by (induction xs rule: frames_of.induct) simp_all

lemma frames_of_concat: "frames_of (concat xss) = concat (map frames_of xss)"
  by (induction xss) (simp_all add: frames_of_append)

lemma matches_loop_body: "matches (self (loop_body st it)) = matches (self st)"
  by (rule ext) (simp add: matches_def loop_body_frame)

lemma delivered_Cons: "delivered sysid (it # its) = delivered sysid [it] @ delivered sysid its"
proof (cases it)
  case Recv_timeout
  then show ?thesis by simp
next
  case (Recv_raises e)
  then show ?thesis by simp
next
  case (Recv_msg msg sr t1 t2)
  then show ?thesis by (cases sr) simp_all
qed

lemma delivered_append: "delivered sysid (xs @ ys) = delivered sysid xs @ delivered sysid ys"
  by (induction sysid xs rule: delivered.induct) simp_all

lemma delivered_concat_replicate:
  "delivered sysid (concat (replicate n xs)) = concat (replicate n (delivered sysid xs))"
  by (induction n) (simp_all add: delivered_append)

lemma delivered_all_sent:
  "list_all (\<lambda>it. \<not> send_failed sysid it) its \<Longrightarrow>
   delivered sysid its = filter (\<lambda>m. get_srcSystem m = sysid) (frames_of its)"
proof (induction its)
  case Nil
  then show ?case by simp
next
  case (Cons it its)
  then have rest: "delivered sysid its = filter (\<lambda>m. get_srcSystem m = sysid) (frames_of its)"
    and ok: "\<not> send_failed sysid it" by simp_all
  show ?case
  proof (cases it)
    case Recv_timeout
    with rest show ?thesis by simp
  next
    case (Recv_raises e)
    with rest show ?thesis by simp
  next
    case (Recv_msg msg sr t1 t2)
    with ok rest show ?thesis by (cases sr) simp_all
  qed
qed

lemma sent_datagrams_handler: "sent_datagrams (out (handler e st)) = sent_datagrams (out st)"
  by (simp add: handler_def sent_datagrams_append)

lemma loop_body_counts:
  "sent_datagrams (out (loop_body st it))
       = sent_datagrams (out st)
         @ map (\<lambda>m. (get_msgbuf m, broadcast_port (self st)))
               (delivered (expected_sysid (self st)) [it])
   \<and> packets_received (self (loop_body st it))
       = packets_received (self st) + int (length (frames_of [it]))
   \<and> packets_forwarded (self (loop_body st it))
       = packets_forwarded (self st) + int (length (delivered (expected_sysid (self st)) [it]))
   \<and> packets_filtered (self (loop_body st it))
       = packets_filtered (self st)
         + int (length (filter (\<lambda>m. \<not> matches (self st) m) (frames_of [it])))
   \<and> bytes_forwarded (self (loop_body st it))
       = bytes_forwarded (self st)
         + (\<Sum>m\<leftarrow>delivered (expected_sysid (self st)) [it]. int (length (get_msgbuf m)))"
proof (cases it)
  case Recv_timeout
  then show ?thesis by (simp add: loop_body_timeout sent_datagrams_append)
next
  case (Recv_raises e)
  then show ?thesis
    by (simp add: loop_body_recv_raises sent_datagrams_handler self_handler)
next
  case (Recv_msg msg sr t1 t2)
  show ?thesis
  proof (cases "get_srcSystem msg = expected_sysid (self st)")
    case False
    from loop_body_filter [OF False, of sr t1 t2] show ?thesis
      unfolding Recv_msg using False by (cases sr) (auto simp: matches_def)
  next
    case True
    show ?thesis
    proof (cases sr)
      case Send_ok
      from loop_body_forward [OF True, of t1 t2] show ?thesis
        unfolding Recv_msg Send_ok using True by (auto simp: matches_def)
    next
      case (Send_raises e)
      show ?thesis
        unfolding Recv_msg Send_raises using True
        by (simp add: loop_body_send_raises [OF True] sent_datagrams_handler self_handler
              matches_def)
    qed
  qed
qed

lemma foldl_counts:
  "sent_datagrams (out (foldl loop_body st its))
       = sent_datagrams (out st)
         @ map (\<lambda>m. (get_msgbuf m, broadcast_port (self st)))
               (delivered (expected_sysid (self st)) its)
   \<and> packets_received (self (foldl loop_body st its))
       = packets_received (self st) + int (length (frames_of its))
   \<and> packets_forwarded (self (foldl loop_body st its))
       = packets_forwarded (self st) + int (length (delivered (expected_sysid (self st)) its))
   \<and> packets_filtered (self (foldl loop_body st its))
       = packets_filtered (self st)
         + int (length (filter (\<lambda>m. \<not> matches (self st) m) (frames_of its)))
   \<and> bytes_forwarded (self (foldl loop_body st its))
       = bytes_forwarded (self st)
         + (\<Sum>m\<leftarrow>delivered (expected_sysid (self st)) its. int (length (get_msgbuf m)))"
proof (induction its arbitrary: st)
  case Nil
  then show ?case by simp
next
  case (Cons it its)
  note step = loop_body_counts [of st it]
  note rest = Cons.IH [of "loop_body st it"]
  have keep: "broadcast_port (self (loop_body st it)) = broadcast_port (self st)"
    "expected_sysid (self (loop_body st it)) = expected_sysid (self st)"
    by (simp_all add: loop_body_frame)
  show ?case
    unfolding frames_of_Cons [of it its] delivered_Cons [of _ it its]
    using rest step by (simp add: matches_loop_body keep)
qed

text \<open>Lists made of a repeated block.\<close>

lemma scenario_a_frames:
  "frames_of scenario_a
     = concat (replicate 20 [heartbeat 2, heartbeat 0, heartbeat 2, heartbeat 0, heartbeat 2])"
  by (simp add: scenario_a_def frames_of_concat)

lemma length_concat_replicate: "length (concat (replicate n xs)) = n * length xs"
  by (induction n) simp_all

lemma filter_concat_replicate: "filter P (concat (replicate n xs)) = concat (replicate n (filter P xs))"
  by (induction n) simp_all

lemma map_concat_replicate: "map f (concat (replicate n xs)) = concat (replicate n (map f xs))"
  by (induction n) simp_all

lemma sum_list_concat_replicate:
  "sum_list (concat (replicate n xs)) = int n * sum_list xs"
  by (induction n) (simp_all add: algebra_simps)

lemma list_all_concat_replicate: "list_all P xs \<Longrightarrow> list_all P (concat (replicate n xs))"
  by (induction n) simp_all

lemma scenario_a_sends: "list_all (\<lambda>it. \<not> send_failed 2 it) scenario_a"
  unfolding scenario_a_def by (rule list_all_concat_replicate) simp

text \<open>A run of timeouts, from a counter below ten.\<close>

lemma foldl_timeouts:
  "consecutive_timeouts st = int c \<Longrightarrow> c < 10 \<Longrightarrow>
   self (foldl loop_body st (replicate n Recv_timeout)) = self st
   \<and> last_stats_time (foldl loop_body st (replicate n Recv_timeout)) = last_stats_time st
   \<and> consecutive_timeouts (foldl loop_body st (replicate n Recv_timeout)) = int ((c + n) mod 10)
   \<and> out (foldl loop_body st (replicate n Recv_timeout))
       = out st @ replicate ((c + n) div 10) (Log WARNING (Msg_no_data (drone_id (self st)) 10))"
proof (induction n arbitrary: st c)
  case 0
  then show ?case by simp
next
  case (Suc n)
  show ?case
  proof (cases "c = 9")
    case True
    with Suc.prems have st1: "consecutive_timeouts (loop_body st Recv_timeout) = int 0"
      "self (loop_body st Recv_timeout) = self st"
      "last_stats_time (loop_body st Recv_timeout) = last_stats_time st"
      "out (loop_body st Recv_timeout) = out st @ [Log WARNING (Msg_no_data (drone_id (self st)) 10)]"
      by (simp_all add: loop_body_timeout)
    have a: "(c + Suc n) mod 10 = (0 + n) mod 10" "(c + Suc n) div 10 = Suc ((0 + n) div 10)"
      using True by simp_all
    from Suc.IH [OF st1(1), of] show ?thesis
      unfolding a by (simp add: st1 replicate_append_same)
  next
    case False
    with Suc.prems have c8: "Suc c < 10" by simp
    with Suc.prems have st1: "consecutive_timeouts (loop_body st Recv_timeout) = int (Suc c)"
      "self (loop_body st Recv_timeout) = self st"
      "last_stats_time (loop_body st Recv_timeout) = last_stats_time st"
      "out (loop_body st Recv_timeout) = out st"
      by (simp_all add: loop_body_timeout)
    from Suc.IH [OF st1(1) c8] show ?thesis
      by (simp add: st1)
  qed
qed

text \<open>Iterations that raise.\<close>

lemma try_body_raises:
  "try_body st (Recv_raises e) = Inl (e, st)"
  "matches (self st) msg \<Longrightarrow>
   try_body st (Recv_msg msg (Send_raises e) t1 t2)
     = Inl (e, st\<lparr> consecutive_timeouts := 0,
                    self := (self st)\<lparr>
                      packets_received := packets_received (self st) + 1,
                      system_ids_seen := insert (get_srcSystem msg) (system_ids_seen (self st)) \<rparr> \<rparr>)"
  by (simp_all add: matches_def Let_def filter_step_def)

lemma forward_while_not_uncaught: "forward_while st evs \<noteq> Uncaught e s es"
  by (induction st evs rule: forward_while.induct) simp_all

lemma logged_error_loop_body:
  "logged ERROR (out (loop_body st it))
     = logged ERROR (out st)
       @ (case try_body st it of Inl (e, _) \<Rightarrow> [Msg_forward_error (drone_id (self st)) e] | Inr _ \<Rightarrow> [])"
proof (cases it)
  case Recv_timeout
  then show ?thesis by (simp add: loop_body_timeout logged_append Let_def)
next
  case (Recv_raises e)
  then show ?thesis by (simp add: loop_body_recv_raises handler_def logged_append)
next
  case (Recv_msg msg sr t1 t2)
  show ?thesis
  proof (cases "get_srcSystem msg = expected_sysid (self st)")
    case False
    then show ?thesis unfolding Recv_msg
      by (simp add: loop_body_def Let_def filter_step_def stats_step_cases logged_append)
  next
    case True
    then show ?thesis unfolding Recv_msg
      by (cases sr)
         (simp_all add: loop_body_def Let_def filter_step_def stats_step_cases logged_append handler_def)
  qed
qed

text \<open>Records that are no statistics lines.\<close>

lemma stats_lines_snoc_other:
  "stats_lines (es @ [Log WARNING m]) = stats_lines es"
  "stats_lines (es @ [Log ERROR m, Sleep d]) = stats_lines es"
  "stats_lines (es @ [Sendto b p]) = stats_lines es"
  by (simp_all add: stats_lines_def logged_append)

lemma stats_lines_handler: "stats_lines (out (handler e st)) = stats_lines (out st)"
  by (simp add: handler_def stats_lines_snoc_other)

text \<open>Starting the forwarders of a configuration list.\<close>

lemma start_each_fresh:
  "snd (start_each i clock (MultiDroneForwarder cfgs))
     = concat (map (\<lambda>cfg. [Thread_start,
                            Log INFO (Msg_forwarder_started (cfg_drone_id cfg) (cfg_px4_port cfg)
                                        (cfg_broadcast_port cfg) (cfg_expected_sysid cfg)),
                            Sleep 1]) cfgs)
   \<and> list_all running (fst (start_each i clock (MultiDroneForwarder cfgs)))
   \<and> length (fst (start_each i clock (MultiDroneForwarder cfgs))) = length cfgs"
proof (induction cfgs arbitrary: i)
  case Nil
  then show ?case by (simp add: MultiDroneForwarder_def)
next
  case (Cons cfg cfgs)
  have split: "MultiDroneForwarder (cfg # cfgs)
     = SystemIdTelemetryForwarder (cfg_px4_port cfg) (cfg_broadcast_port cfg)
         (cfg_expected_sysid cfg) (cfg_drone_id cfg) # MultiDroneForwarder cfgs"
    by (simp add: MultiDroneForwarder_def)
  from Cons.IH [of "Suc i"] show ?case
    unfolding split
    by (simp add: start_def SystemIdTelemetryForwarder_def case_prod_beta)
qed

section \<open>The claims\<close>

lemma drone1_simps:
  "running drone1" "expected_sysid drone1 = 1" "packets_received drone1 = 0"
  "packets_forwarded drone1 = 0" "packets_filtered drone1 = 0" "broadcast_port drone1 = 14550"
  "drone_id drone1 = 1" "start_time drone1 = Some 100" "bytes_forwarded drone1 = 0"
  by (simp_all add: drone1_def start_def SystemIdTelemetryForwarder_def)

lemma drone2_simps:
  "running drone2" "expected_sysid drone2 = 2" "packets_received drone2 = 0"
  "packets_forwarded drone2 = 0" "packets_filtered drone2 = 0" "broadcast_port drone2 = 14551"
  "drone_id drone2 = 2" "start_time drone2 = Some 100" "bytes_forwarded drone2 = 0"
  by (simp_all add: drone2_def start_def SystemIdTelemetryForwarder_def)

subsection \<open>C1: the counter equation\<close>

text \<open>
  C1 says that \<open>packets_received = packets_forwarded + packets_filtered\<close> holds in every
  reachable state, also after an iteration whose send raises. The loop counts a message as
  received (line 103) before it calls \<^verbatim>\<open>sendto\<close> (line 115) and counts it as forwarded
  only after the call returned (line 118), so an iteration whose \<^verbatim>\<open>sendto\<close> raises adds
  one to \<open>packets_received\<close> and to no other counter.

  C1, as amended: at every iteration boundary of a loop that started from a state where the
  equation held, \<open>packets_received\<close> equals \<open>packets_forwarded + packets_filtered\<close> plus the
  number of executed iterations in which \<^verbatim>\<open>sendto\<close> raised; so the equation holds as long
  as no send has raised.
\<close>

theorem counters_gap:
  assumes "packets_received (self st) = packets_forwarded (self st) + packets_filtered (self st)"
  shows "packets_received (result_self (forward_while st evs))
           = packets_forwarded (result_self (forward_while st evs))
             + packets_filtered (result_self (forward_while st evs))
             + int (length (filter (send_failed (expected_sysid (self st)))
                                   (executed (running (self st)) evs)))"
  using gap_forward_while [of st evs] assms by (simp add: gap_def)

theorem counters_gap_witness:
  "packets_received (self (loop_init drone1 100))
     = packets_forwarded (self (loop_init drone1 100)) + packets_filtered (self (loop_init drone1 100))
   \<and> packets_received (result_self (forward_while (loop_init drone1 100)
        [Iteration (Recv_msg (heartbeat 1) Send_ok 101 101),
         Iteration (Recv_msg (heartbeat 1) (Send_raises unreachable) 102 102),
         Iteration (Recv_msg (heartbeat 3) Send_ok 103 103),
         Stop_called,
         Iteration (Recv_msg (heartbeat 1) Send_ok 104 104)]))
     = packets_forwarded (result_self (forward_while (loop_init drone1 100)
        [Iteration (Recv_msg (heartbeat 1) Send_ok 101 101),
         Iteration (Recv_msg (heartbeat 1) (Send_raises unreachable) 102 102),
         Iteration (Recv_msg (heartbeat 3) Send_ok 103 103),
         Stop_called,
         Iteration (Recv_msg (heartbeat 1) Send_ok 104 104)]))
       + packets_filtered (result_self (forward_while (loop_init drone1 100)
        [Iteration (Recv_msg (heartbeat 1) Send_ok 101 101),
         Iteration (Recv_msg (heartbeat 1) (Send_raises unreachable) 102 102),
         Iteration (Recv_msg (heartbeat 3) Send_ok 103 103),
         Stop_called,
         Iteration (Recv_msg (heartbeat 1) Send_ok 104 104)]))
       + 1"
  using counters_gap [of "loop_init drone1 100"
        "[Iteration (Recv_msg (heartbeat 1) Send_ok 101 101),
         Iteration (Recv_msg (heartbeat 1) (Send_raises unreachable) 102 102),
         Iteration (Recv_msg (heartbeat 3) Send_ok 103 103),
         Stop_called,
         Iteration (Recv_msg (heartbeat 1) Send_ok 104 104)]"]
  by (simp add: loop_init_def drone1_simps heartbeat_def)

text \<open>The first forwarder of \<^verbatim>\<open>main\<close> receives one message of its own system and the
  send raises: one packet received, none forwarded, none filtered.\<close>

theorem send_raises_counterexample:
  "packets_received (result_self (forward_loop drone1 (Inr ()) 100
       [Iteration (Recv_msg (heartbeat 1) (Send_raises unreachable) 101 101)])) = 1
   \<and> packets_forwarded (result_self (forward_loop drone1 (Inr ()) 100
       [Iteration (Recv_msg (heartbeat 1) (Send_raises unreachable) 101 101)])) = 0
   \<and> packets_filtered (result_self (forward_loop drone1 (Inr ()) 100
       [Iteration (Recv_msg (heartbeat 1) (Send_raises unreachable) 101 101)])) = 0"
  by (simp add: forward_loop_def loop_init_def drone1_simps heartbeat_def loop_body_def
        filter_step_def handler_def Let_def)

subsection \<open>C3: the derived metrics never divide by zero\<close>

text \<open>
  C3: \<^verbatim>\<open>get_stats\<close> returns a dictionary for every forwarder state and clock reading (no
  division raises), in which \<open>forward_rate_hz\<close> and \<open>bandwidth_kbps\<close> are 0 when the
  elapsed time is zero or negative, and \<open>filter_percentage\<close> is 0 when \<open>packets_received\<close>
  is zero or negative. Division is \<open>py_truediv\<close>, which raises on a zero divisor.
\<close>

theorem derived_metrics_guarded:
  "\<exists>r. get_stats s now = Inr r
     \<and> (duration_since (start_time s) now \<le> 0 \<longrightarrow> forward_rate_hz r = 0 \<and> bandwidth_kbps r = 0)
     \<and> (packets_received s \<le> 0 \<longrightarrow> filter_percentage r = 0)"
  by (simp add: get_stats_def Let_def bind_exc_def py_truediv_def)

theorem derived_metrics_guarded_witness:
  "duration_since (start_time (SystemIdTelemetryForwarder 14540 14550 1 1)) 100 \<le> 0
   \<and> packets_received (SystemIdTelemetryForwarder 14540 14550 1 1) \<le> 0
   \<and> (\<exists>r. get_stats (SystemIdTelemetryForwarder 14540 14550 1 1) 100 = Inr r
        \<and> forward_rate_hz r = 0 \<and> bandwidth_kbps r = 0 \<and> filter_percentage r = 0)"
  using derived_metrics_guarded [of "SystemIdTelemetryForwarder 14540 14550 1 1" 100]
  by (auto simp: SystemIdTelemetryForwarder_def duration_since_def)

subsection \<open>C7: a stopped forwarder\<close>

text \<open>
  C7 says that an instance that was started and stopped never runs again. \<^verbatim>\<open>start\<close>
  only tests \<^verbatim>\<open>self.running\<close>, which \<^verbatim>\<open>stop\<close> has cleared, so a second
  \<^verbatim>\<open>start\<close> launches the loop again.

  C7, as amended: after \<^verbatim>\<open>stop()\<close> the flag \<open>running\<close> is false, and a following
  \<^verbatim>\<open>start()\<close> sets it again, records a new \<open>start_time\<close> and starts a new thread, while
  the four counters and \<open>system_ids_seen\<close> keep the values they had: neither \<^verbatim>\<open>stop\<close> nor
  \<^verbatim>\<open>start\<close> resets them in place.
\<close>

theorem restart_after_stop:
  "\<not> running (fst (stop s))
   \<and> running (fst (start (fst (stop s)) now))
   \<and> start_time (fst (start (fst (stop s)) now)) = Some now
   \<and> Thread_start \<in> set (snd (start (fst (stop s)) now))
   \<and> packets_received (fst (start (fst (stop s)) now)) = packets_received s
   \<and> packets_forwarded (fst (start (fst (stop s)) now)) = packets_forwarded s
   \<and> packets_filtered (fst (start (fst (stop s)) now)) = packets_filtered s
   \<and> bytes_forwarded (fst (start (fst (stop s)) now)) = bytes_forwarded s
   \<and> system_ids_seen (fst (start (fst (stop s)) now)) = system_ids_seen s"
  by (simp add: start_def stop_def)

theorem restart_after_stop_witness:
  "\<not> running (fst (stop drone1))
   \<and> running (fst (start (fst (stop drone1)) 200))
   \<and> start_time (fst (start (fst (stop drone1)) 200)) = Some 200
   \<and> packets_received (fst (start (fst (stop drone1)) 200)) = 0"
  using restart_after_stop [of drone1 200] by (simp add: drone1_simps)

text \<open>The first forwarder of \<^verbatim>\<open>main\<close>, started and stopped (its thread exists, its flag is
  cleared), runs again after a second \<^verbatim>\<open>start\<close>.\<close>

theorem stopped_restarts_counterexample:
  "thread (fst (stop drone1)) \<noteq> None \<and> \<not> running (fst (stop drone1))
   \<and> running (fst (start (fst (stop drone1)) 200))"
  by (simp add: start_def stop_def drone1_def SystemIdTelemetryForwarder_def)

subsection \<open>C9: \<^verbatim>\<open>start\<close> is idempotent\<close>

text \<open>
  C9: on a running forwarder \<^verbatim>\<open>start()\<close> changes no field and has no effect (no thread
  is started); on a forwarder that is not running it sets \<open>running\<close>, records the clock
  reading as \<open>start_time\<close> and starts exactly one new thread; hence a second call right after
  the first changes nothing.
\<close>

theorem start_idempotent:
  "(running s \<longrightarrow> start s now = (s, []))
   \<and> (\<not> running s \<longrightarrow>
        running (fst (start s now)) \<and> start_time (fst (start s now)) = Some now
        \<and> thread (fst (start s now)) \<noteq> None \<and> thread (fst (start s now)) \<noteq> thread s
        \<and> length (filter (\<lambda>e. e = Thread_start) (snd (start s now))) = 1)
   \<and> start (fst (start s now)) later = (fst (start s now), [])"
  by (auto simp: start_def split: option.splits)

theorem start_idempotent_witness:
  "running drone1 \<and> start drone1 250 = (drone1, [])
   \<and> \<not> running (SystemIdTelemetryForwarder 14540 14550 1 1)
   \<and> running (fst (start (SystemIdTelemetryForwarder 14540 14550 1 1) 100))
   \<and> start_time (fst (start (SystemIdTelemetryForwarder 14540 14550 1 1) 100)) = Some 100"
  using start_idempotent [of drone1 250 0]
    start_idempotent [of "SystemIdTelemetryForwarder 14540 14550 1 1" 100 0]
  by (simp add: drone1_simps) (simp add: SystemIdTelemetryForwarder_def)

subsection \<open>C2: the matching subsequence is forwarded\<close>

text \<open>
  C2 says that for every sequence of received frames the loop sends exactly the frames of
  the expected system and counts each of them as forwarded. A frame of the expected system
  whose \<^verbatim>\<open>sendto\<close> raises (line 115) is counted as received (line 103), but lines 118
  and 119 are not reached: it is neither sent nor counted as forwarded.

  C2, as amended: for every sequence of iterations of a running loop, whatever raises in
  them, the datagrams handed to \<^verbatim>\<open>sendto\<close> with success are exactly the buffers of
  the received frames whose source system is the expected one and whose send did not raise,
  unchanged, in arrival order and addressed to the broadcast port; \<open>packets_forwarded\<close>
  grows by their number and \<open>bytes_forwarded\<close> by their summed length; every frame of
  another system is dropped and adds one to \<open>packets_filtered\<close>. When no send raises,
  these frames are all the frames of the expected system; so for Scenario A (100 frames, 60
  of the expected system, no send raising) the counters are 60 and 40 and \<open>bytes_forwarded\<close>
  is the summed length of those 60 frames: see the instance after the theorem.
\<close>

theorem forwards_delivered_subsequence:
  assumes "running (self st)"
  shows "\<exists>st'. forward_while st (map Iteration its) = Looping st'
     \<and> sent_datagrams (out st')
         = sent_datagrams (out st)
           @ map (\<lambda>m. (get_msgbuf m, broadcast_port (self st)))
                 (delivered (expected_sysid (self st)) its)
     \<and> packets_received (self st') = packets_received (self st) + int (length (frames_of its))
     \<and> packets_forwarded (self st')
         = packets_forwarded (self st) + int (length (delivered (expected_sysid (self st)) its))
     \<and> packets_filtered (self st')
         = packets_filtered (self st)
           + int (length (filter (\<lambda>m. \<not> matches (self st) m) (frames_of its)))
     \<and> bytes_forwarded (self st')
         = bytes_forwarded (self st)
           + (\<Sum>m\<leftarrow>delivered (expected_sysid (self st)) its. int (length (get_msgbuf m)))
     \<and> (list_all (\<lambda>it. \<not> send_failed (expected_sysid (self st)) it) its \<longrightarrow>
          delivered (expected_sysid (self st)) its = filter (matches (self st)) (frames_of its))"
proof -
  have m: "matches (self st) = (\<lambda>m. get_srcSystem m = expected_sysid (self st))"
    by (rule ext) (simp add: matches_def)
  show ?thesis
    using forward_while_iterations [OF assms, of its] foldl_counts [of st its]
      delivered_all_sent [of "expected_sysid (self st)" its]
    unfolding m by simp
qed

theorem forwards_delivered_subsequence_witness:
  "running (self (loop_init drone2 100))
   \<and> list_all (\<lambda>it. \<not> send_failed (expected_sysid (self (loop_init drone2 100))) it) scenario_a
   \<and> length (frames_of scenario_a) = 100
   \<and> (\<exists>st'. forward_while (loop_init drone2 100) (map Iteration scenario_a) = Looping st'
        \<and> sent_datagrams (out st')
             = map (\<lambda>m. (get_msgbuf m, 14551))
                   (filter (matches (self (loop_init drone2 100))) (frames_of scenario_a))
        \<and> sent_datagrams (out st')
             = concat (replicate 20
                 [(get_msgbuf (heartbeat 2), 14551), (get_msgbuf (heartbeat 2), 14551),
                  (get_msgbuf (heartbeat 2), 14551)])
        \<and> packets_received (self st') = 100
        \<and> packets_forwarded (self st') = 60
        \<and> packets_filtered (self st') = 40
        \<and> bytes_forwarded (self st') = 300)"
proof -
  let ?st = "loop_init drone2 100"
  have r: "running (self ?st)"
    by (simp add: loop_init_def drone2_simps)
  have x: "expected_sysid (self ?st) = 2"
    by (simp add: loop_init_def drone2_simps)
  have s: "list_all (\<lambda>it. \<not> send_failed (expected_sysid (self ?st)) it) scenario_a"
    unfolding x by (rule scenario_a_sends)
  have m: "matches (self ?st) (heartbeat 2)" "\<not> matches (self ?st) (heartbeat 0)"
    by (simp_all add: matches_def loop_init_def drone2_simps heartbeat_def)
  have i: "sent_datagrams (out ?st) = []"
      "packets_received (self ?st) = 0" "packets_forwarded (self ?st) = 0"
      "packets_filtered (self ?st) = 0" "bytes_forwarded (self ?st) = 0"
      "broadcast_port (self ?st) = 14551"
    by (simp_all add: loop_init_def drone2_simps)
  have l: "length (get_msgbuf (heartbeat 2)) = 5"
    by (simp add: heartbeat_def)
  from forwards_delivered_subsequence [OF r, of scenario_a] s
  obtain st' where run: "forward_while ?st (map Iteration scenario_a) = Looping st'"
    and sent: "sent_datagrams (out st')
         = sent_datagrams (out ?st)
           @ map (\<lambda>m. (get_msgbuf m, broadcast_port (self ?st)))
                 (delivered (expected_sysid (self ?st)) scenario_a)"
    and rc: "packets_received (self st') = packets_received (self ?st) + int (length (frames_of scenario_a))"
    and fw: "packets_forwarded (self st')
         = packets_forwarded (self ?st) + int (length (delivered (expected_sysid (self ?st)) scenario_a))"
    and fl: "packets_filtered (self st')
         = packets_filtered (self ?st)
           + int (length (filter (\<lambda>m. \<not> matches (self ?st) m) (frames_of scenario_a)))"
    and bf: "bytes_forwarded (self st')
         = bytes_forwarded (self ?st)
           + (\<Sum>m\<leftarrow>delivered (expected_sysid (self ?st)) scenario_a. int (length (get_msgbuf m)))"
    and dl: "delivered (expected_sysid (self ?st)) scenario_a
               = filter (matches (self ?st)) (frames_of scenario_a)"
    by blast
  have fr: "filter (matches (self ?st)) (frames_of scenario_a)
              = concat (replicate 20 [heartbeat 2, heartbeat 2, heartbeat 2])"
    "filter (\<lambda>m. \<not> matches (self ?st) m) (frames_of scenario_a)
              = concat (replicate 20 [heartbeat 0, heartbeat 0])"
    "length (frames_of scenario_a) = 100"
    by (simp_all add: scenario_a_frames filter_concat_replicate length_concat_replicate m)
  have "sent_datagrams (out st')
             = map (\<lambda>m. (get_msgbuf m, 14551)) (filter (matches (self ?st)) (frames_of scenario_a))"
    using sent unfolding dl by (simp add: i)
  moreover from this have "sent_datagrams (out st')
             = concat (replicate 20
                 [(get_msgbuf (heartbeat 2), 14551), (get_msgbuf (heartbeat 2), 14551),
                  (get_msgbuf (heartbeat 2), 14551)])"
    unfolding fr by (simp add: map_concat_replicate)
  moreover have "packets_received (self st') = 100" using rc by (simp add: i fr)
  moreover have "packets_forwarded (self st') = 60"
    using fw unfolding dl fr by (simp add: i length_concat_replicate)
  moreover have "packets_filtered (self st') = 40"
    using fl unfolding fr by (simp add: i length_concat_replicate)
  moreover have "bytes_forwarded (self st') = 300"
    using bf unfolding dl fr by (simp add: i map_concat_replicate sum_list_concat_replicate l)
  ultimately show ?thesis using r s run fr(3) by blast
qed

text \<open>The second forwarder of \<^verbatim>\<open>main\<close> receives two frames of its own system and
  the send of the second raises: one datagram is sent and counted, though two frames
  match.\<close>

theorem failed_send_not_forwarded_counterexample:
  "sent_datagrams (result_out (forward_loop drone2 (Inr ()) 100
       [Iteration (Recv_msg (heartbeat 2) Send_ok 101 101),
        Iteration (Recv_msg (heartbeat 2) (Send_raises unreachable) 102 102)]))
     = [(get_msgbuf (heartbeat 2), 14551)]
   \<and> map (\<lambda>m. (get_msgbuf m, 14551))
         (filter (matches drone2)
            (frames_of [Recv_msg (heartbeat 2) Send_ok 101 101,
                        Recv_msg (heartbeat 2) (Send_raises unreachable) 102 102]))
     = [(get_msgbuf (heartbeat 2), 14551), (get_msgbuf (heartbeat 2), 14551)]
   \<and> packets_received (result_self (forward_loop drone2 (Inr ()) 100
       [Iteration (Recv_msg (heartbeat 2) Send_ok 101 101),
        Iteration (Recv_msg (heartbeat 2) (Send_raises unreachable) 102 102)])) = 2
   \<and> packets_forwarded (result_self (forward_loop drone2 (Inr ()) 100
       [Iteration (Recv_msg (heartbeat 2) Send_ok 101 101),
        Iteration (Recv_msg (heartbeat 2) (Send_raises unreachable) 102 102)])) = 1
   \<and> packets_filtered (result_self (forward_loop drone2 (Inr ()) 100
       [Iteration (Recv_msg (heartbeat 2) Send_ok 101 101),
        Iteration (Recv_msg (heartbeat 2) (Send_raises unreachable) 102 102)])) = 0"
  by (simp add: forward_loop_def loop_init_def drone2_simps heartbeat_def loop_body_def
        filter_step_def stats_step_def handler_def Let_def matches_def sent_datagrams_append)

subsection \<open>C4: the silence warning\<close>

text \<open>
  C4: a timeout adds one to \<open>consecutive_timeouts\<close>, and when the sum reaches 10 the
  iteration logs one warning and sets the counter to zero instead; a received message sets
  the counter to zero (also when its send raises); the forwarder object, and so its flag
  \<open>running\<close>, is untouched by a timeout. From a counter of zero, \<open>n\<close> timeouts in a row
  leave the loop going with \<open>n div 10\<close> warnings; for 12 timeouts (12 seconds of silence
  with the receive timeout of one second) that is exactly one warning.
\<close>

theorem silence_warning:
  assumes "running (self st)"
  shows "consecutive_timeouts (loop_body st Recv_timeout)
           = (if consecutive_timeouts st + 1 \<ge> 10 then 0 else consecutive_timeouts st + 1)
     \<and> out (loop_body st Recv_timeout)
           = out st @ (if consecutive_timeouts st + 1 \<ge> 10
                       then [Log WARNING (Msg_no_data (drone_id (self st)) (consecutive_timeouts st + 1))]
                       else [])
     \<and> self (loop_body st Recv_timeout) = self st
     \<and> consecutive_timeouts (loop_body st (Recv_msg msg sr t1 t2)) = 0
     \<and> (consecutive_timeouts st = 0 \<longrightarrow>
          (\<exists>st'. forward_while st (replicate n (Iteration Recv_timeout)) = Looping st'
             \<and> self st' = self st
             \<and> consecutive_timeouts st' = int (n mod 10)
             \<and> out st' = out st @ replicate (n div 10) (Log WARNING (Msg_no_data (drone_id (self st)) 10))))
     \<and> (consecutive_timeouts st = 0 \<longrightarrow>
          (\<exists>st'. forward_while st (replicate 12 (Iteration Recv_timeout)) = Looping st'
             \<and> running (self st')
             \<and> consecutive_timeouts st' = 2
             \<and> logged WARNING (out st') = logged WARNING (out st) @ [Msg_no_data (drone_id (self st)) 10]))"
proof -
  have reset: "consecutive_timeouts (loop_body st (Recv_msg msg sr t1 t2)) = 0"
  proof (cases "get_srcSystem msg = expected_sysid (self st)")
    case False
    from loop_body_filter [OF False, of sr t1 t2] show ?thesis by simp
  next
    case True
    show ?thesis
    proof (cases sr)
      case Send_ok
      from loop_body_forward [OF True, of t1 t2] show ?thesis unfolding Send_ok by simp
    next
      case (Send_raises e)
      show ?thesis unfolding Send_raises
        by (simp add: loop_body_send_raises [OF True] handler_def)
    qed
  qed
  have run: "forward_while st (replicate k (Iteration Recv_timeout))
               = Looping (foldl loop_body st (replicate k Recv_timeout))" for k
    using forward_while_iterations [OF assms, of "replicate k Recv_timeout"] by simp
  have gen: "consecutive_timeouts st = 0 \<Longrightarrow>
      self (foldl loop_body st (replicate k Recv_timeout)) = self st
      \<and> consecutive_timeouts (foldl loop_body st (replicate k Recv_timeout)) = int (k mod 10)
      \<and> out (foldl loop_body st (replicate k Recv_timeout))
           = out st @ replicate (k div 10) (Log WARNING (Msg_no_data (drone_id (self st)) 10))" for k
    using foldl_timeouts [of st 0 k] by simp
  have twelve: "consecutive_timeouts st = 0 \<Longrightarrow>
      running (self (foldl loop_body st (replicate 12 Recv_timeout)))
      \<and> consecutive_timeouts (foldl loop_body st (replicate 12 Recv_timeout)) = 2
      \<and> logged WARNING (out (foldl loop_body st (replicate 12 Recv_timeout)))
           = logged WARNING (out st) @ [Msg_no_data (drone_id (self st)) 10]"
    using gen [of 12] assms by (simp add: logged_append)
  show ?thesis
    using reset run gen twelve by (simp add: loop_body_timeout)
qed

theorem silence_warning_witness:
  "running (self (loop_init drone1 100)) \<and> consecutive_timeouts (loop_init drone1 100) = 0
   \<and> (\<exists>st'. forward_while (loop_init drone1 100) (replicate 12 (Iteration Recv_timeout)) = Looping st'
         \<and> running (self st')
         \<and> consecutive_timeouts st' = 2
         \<and> logged WARNING (out st') = [Msg_no_data 1 10])"
proof -
  have r: "running (self (loop_init drone1 100))"
    by (simp add: loop_init_def drone1_simps)
  have c: "consecutive_timeouts (loop_init drone1 100) = 0"
      "logged WARNING (out (loop_init drone1 100)) = []"
      "drone_id (self (loop_init drone1 100)) = 1"
    by (simp_all add: loop_init_def drone1_simps)
  from silence_warning [OF r, of "heartbeat 1" Send_ok 0 0 12] show ?thesis
    using r c by simp
qed

subsection \<open>C6: exceptions of the receive and of the send\<close>

text \<open>
  C6: when \<^verbatim>\<open>recv_match\<close> raises, or \<^verbatim>\<open>sendto\<close> raises for a message of the
  expected system, the exception leaves the \<^verbatim>\<open>try\<close> block and is handled by the
  \<^verbatim>\<open>except\<close> clause of the same iteration: one error record with the exception is
  logged, the thread sleeps 0.1 seconds, and nothing else changes in the state the exception
  was raised in. The flag \<open>running\<close> stays set, the loop goes on with the next event, its
  outcome is never an uncaught exception, and after any further iterations, raising or not,
  the loop is still going.
\<close>

theorem exceptions_caught:
  assumes "running (self st)"
    and "it = Recv_raises e \<or> (it = Recv_msg msg (Send_raises e) t1 t2 \<and> matches (self st) msg)"
  shows "(\<exists>st1. try_body st it = Inl (e, st1)
            \<and> loop_body st it
                = st1\<lparr> out := out st1 @ [Log ERROR (Msg_forward_error (drone_id (self st)) e),
                                         Sleep (1 / 10)] \<rparr>)
     \<and> running (self (loop_body st it))
     \<and> forward_while st (Iteration it # evs) = forward_while (loop_body st it) evs
     \<and> (\<forall>x s es. forward_while st (Iteration it # evs) \<noteq> Uncaught x s es)
     \<and> forward_while st (map Iteration (it # its)) = Looping (foldl loop_body (loop_body st it) its)"
proof -
  from assms(2) have caught: "\<exists>st1. try_body st it = Inl (e, st1)
            \<and> loop_body st it
                = st1\<lparr> out := out st1 @ [Log ERROR (Msg_forward_error (drone_id (self st)) e),
                                         Sleep (1 / 10)] \<rparr>"
  proof
    assume "it = Recv_raises e"
    then show ?thesis by (simp add: loop_body_def handler_def)
  next
    assume a: "it = Recv_msg msg (Send_raises e) t1 t2 \<and> matches (self st) msg"
    then have m: "matches (self st) msg" by simp
    show ?thesis
      using a by (simp add: loop_body_def try_body_raises(2) [OF m] handler_def del: try_body.simps)
  qed
  have r: "running (self (loop_body st it))"
    using assms(1) by (simp add: loop_body_frame)
  have step: "forward_while st (Iteration it # evs) = forward_while (loop_body st it) evs"
    using assms(1) by simp
  have all: "forward_while st (map Iteration (it # its)) = Looping (foldl loop_body (loop_body st it) its)"
    using forward_while_iterations [OF assms(1), of "it # its"] by simp
  show ?thesis
    using caught r step all forward_while_not_uncaught by blast
qed

theorem exceptions_caught_witness:
  "running (self (loop_init drone1 100)) \<and> matches (self (loop_init drone1 100)) (heartbeat 1)
   \<and> logged ERROR (out (loop_body (loop_init drone1 100)
        (Recv_msg (heartbeat 1) (Send_raises unreachable) 101 101))) = [Msg_forward_error 1 unreachable]
   \<and> running (self (loop_body (loop_init drone1 100)
        (Recv_msg (heartbeat 1) (Send_raises unreachable) 101 101)))
   \<and> forward_while (loop_init drone1 100)
        (map Iteration [Recv_msg (heartbeat 1) (Send_raises unreachable) 101 101, Recv_raises unreachable])
      = Looping (loop_body (loop_body (loop_init drone1 100)
           (Recv_msg (heartbeat 1) (Send_raises unreachable) 101 101)) (Recv_raises unreachable))"
proof -
  let ?st = "loop_init drone1 100"
  let ?it = "Recv_msg (heartbeat 1) (Send_raises unreachable) 101 101"
  have r: "running (self ?st)"
    by (simp add: loop_init_def drone1_simps)
  have m: "matches (self ?st) (heartbeat 1)"
    by (simp add: matches_def loop_init_def drone1_simps heartbeat_def)
  have d: "drone_id (self ?st) = 1" "logged ERROR (out ?st) = []"
    by (simp_all add: loop_init_def drone1_simps)
  have h: "?it = Recv_raises unreachable
           \<or> (?it = Recv_msg (heartbeat 1) (Send_raises unreachable) 101 101 \<and> matches (self ?st) (heartbeat 1))"
    using m by simp
  note T = exceptions_caught [OF r h, of "[]" "[Recv_raises unreachable]"]
  from T obtain st1 where st1: "try_body ?st ?it = Inl (unreachable, st1)"
    and lb: "loop_body ?st ?it
               = st1\<lparr> out := out st1 @ [Log ERROR (Msg_forward_error (drone_id (self ?st)) unreachable),
                                        Sleep (1 / 10)] \<rparr>"
    by blast
  from st1 have "out st1 = out ?st"
    unfolding try_body_raises(2) [OF m] by auto
  with lb have e: "logged ERROR (out (loop_body ?st ?it)) = [Msg_forward_error 1 unreachable]"
    by (simp add: logged_append d)
  from T have k: "running (self (loop_body ?st ?it))" by blast
  from T have "forward_while ?st (map Iteration (?it # [Recv_raises unreachable]))
                 = Looping (foldl loop_body (loop_body ?st ?it) [Recv_raises unreachable])"
    by blast
  then have w: "forward_while ?st (map Iteration [?it, Recv_raises unreachable])
                 = Looping (loop_body (loop_body ?st ?it) (Recv_raises unreachable))"
    by (simp only: foldl.simps)
  from r m e k w show ?thesis by blast
qed

subsection \<open>C8: the periodic statistics line\<close>

text \<open>
  C8 says that whenever ten seconds have passed since the last report, the next iteration
  of the loop emits a statistics line. The check of lines 124 to 128 stands at the end of
  the \<^verbatim>\<open>try\<close> block: an iteration that times out leaves the block by
  \<^verbatim>\<open>continue\<close> (line 99), and one that raises leaves it for the \<^verbatim>\<open>except\<close>
  clause, so neither reads the clock nor reports.

  C8, as amended: an iteration that received a message and raised no exception compares
  the clock with \<open>last_stats_time\<close>; when at least ten seconds have passed it sets
  \<open>last_stats_time\<close> to that reading and emits one statistics line (none when the time
  since \<open>start_time\<close> is not positive), otherwise it emits none and keeps
  \<open>last_stats_time\<close>. An iteration that times out or ends in the exception handler emits
  no statistics line and keeps \<open>last_stats_time\<close>, however much time has passed.
\<close>

theorem stats_line_gate:
  "((it = Recv_timeout \<or> raises (expected_sysid (self st)) it) \<longrightarrow>
       stats_lines (out (loop_body st it)) = stats_lines (out st)
       \<and> last_stats_time (loop_body st it) = last_stats_time st)
   \<and> ((it = Recv_msg msg sr t1 t2 \<and> \<not> send_failed (expected_sysid (self st)) it) \<longrightarrow>
       (if t1 - last_stats_time st \<ge> 10
        then last_stats_time (loop_body st it) = t1
             \<and> length (stats_lines (out (loop_body st it)))
                 = length (stats_lines (out st))
                   + (if duration_since (start_time (self st)) t2 > 0 then 1 else 0)
        else last_stats_time (loop_body st it) = last_stats_time st
             \<and> stats_lines (out (loop_body st it)) = stats_lines (out st)))"
proof -
  have a: "stats_lines (out (loop_body st it)) = stats_lines (out st)
           \<and> last_stats_time (loop_body st it) = last_stats_time st"
    if "it = Recv_timeout \<or> raises (expected_sysid (self st)) it"
    using that
  proof
    assume "it = Recv_timeout"
    then show ?thesis by (simp add: loop_body_timeout stats_lines_snoc_other)
  next
    assume r: "raises (expected_sysid (self st)) it"
    show ?thesis
    proof (cases it)
      case Recv_timeout
      with r show ?thesis by simp
    next
      case (Recv_raises e)
      then show ?thesis by (simp add: loop_body_recv_raises handler_def stats_lines_snoc_other)
    next
      case (Recv_msg m s u v)
      with r obtain e where s: "s = Send_raises e" and eq: "get_srcSystem m = expected_sysid (self st)"
        by (cases s) simp_all
      show ?thesis unfolding Recv_msg s
        by (simp add: loop_body_send_raises [OF eq] handler_def stats_lines_snoc_other)
    qed
  qed
  have b: "(if t1 - last_stats_time st \<ge> 10
        then last_stats_time (loop_body st it) = t1
             \<and> length (stats_lines (out (loop_body st it)))
                 = length (stats_lines (out st))
                   + (if duration_since (start_time (self st)) t2 > 0 then 1 else 0)
        else last_stats_time (loop_body st it) = last_stats_time st
             \<and> stats_lines (out (loop_body st it)) = stats_lines (out st))"
    if "it = Recv_msg msg sr t1 t2 \<and> \<not> send_failed (expected_sysid (self st)) it"
  proof (cases "get_srcSystem msg = expected_sysid (self st)")
    case False
    with that show ?thesis
      by (simp add: loop_body_def Let_def filter_step_def stats_step_cases stats_lines_append)
         (simp add: stats_lines_def)
  next
    case True
    from that have it: "it = Recv_msg msg sr t1 t2"
      and nf: "\<not> send_failed (expected_sysid (self st)) it" by blast+
    from nf True have "sr = Send_ok" unfolding it by (cases sr) simp_all
    with that True show ?thesis
      by (simp add: loop_body_def Let_def filter_step_def stats_step_cases stats_lines_append)
         (simp add: stats_lines_def)
  qed
  from a b show ?thesis by blast
qed

theorem stats_line_gate_witness:
  "\<not> send_failed (expected_sysid (self (loop_init drone1 100))) (Recv_msg (heartbeat 1) Send_ok 110 111)
   \<and> last_stats_time (loop_body (loop_init drone1 100) (Recv_msg (heartbeat 1) Send_ok 110 111)) = 110
   \<and> length (stats_lines (out (loop_body (loop_init drone1 100) (Recv_msg (heartbeat 1) Send_ok 110 111)))) = 1
   \<and> raises (expected_sysid (self (loop_init drone1 100))) (Recv_raises unreachable)
   \<and> stats_lines (out (loop_body (loop_init drone1 100) (Recv_raises unreachable))) = []"
  using stats_line_gate [of "Recv_msg (heartbeat 1) Send_ok 110 111" "loop_init drone1 100"
                            "heartbeat 1" Send_ok 110 111]
        stats_line_gate [of "Recv_raises unreachable" "loop_init drone1 100"
                            "heartbeat 1" Send_ok 110 111]
  by (simp add: loop_init_def drone1_simps duration_since_def stats_lines_def)

text \<open>The first forwarder of \<^verbatim>\<open>main\<close> meets twelve timeouts of one second each and
  then a message whose send raises, at clock reading 112, twelve seconds after the loop
  started at 100: no statistics line is written.\<close>

theorem silent_stats_counterexample:
  "stats_lines (result_out (forward_loop drone1 (Inr ()) 100
      (replicate 12 (Iteration Recv_timeout)
       @ [Iteration (Recv_msg (heartbeat 1) (Send_raises unreachable) 112 112)]))) = []"
proof -
  let ?st = "loop_init drone1 100"
  let ?it = "Recv_msg (heartbeat 1) (Send_raises unreachable) 112 112"
  have r: "running (self ?st)" by (simp add: loop_init_def drone1_simps)
  have c: "consecutive_timeouts ?st = int 0" by (simp add: loop_init_def)
  have evs: "replicate 12 (Iteration Recv_timeout) @ [Iteration ?it]
               = map Iteration (replicate 12 Recv_timeout @ [?it])"
    by simp
  let ?st12 = "foldl loop_body ?st (replicate 12 Recv_timeout)"
  from foldl_timeouts [OF c, of 12]
  have t: "self ?st12 = self ?st"
    "out ?st12 = out ?st @ replicate 1 (Log WARNING (Msg_no_data (drone_id (self ?st)) 10))"
    by simp_all
  have eq: "get_srcSystem (heartbeat 1) = expected_sysid (self ?st12)"
    unfolding t by (simp add: loop_init_def drone1_simps heartbeat_def)
  have "stats_lines (out (loop_body ?st12 ?it)) = stats_lines (out ?st)"
    by (simp add: loop_body_send_raises [OF eq] handler_def t stats_lines_def logged_append)
  also have "\<dots> = []"
    by (simp add: loop_init_def stats_lines_def)
  finally have none: "stats_lines (out (loop_body ?st12 ?it)) = []" .
  have "forward_while ?st (map Iteration (replicate 12 Recv_timeout @ [?it]))
          = Looping (loop_body ?st12 ?it)"
    unfolding forward_while_iterations [OF r] by simp
  then have "forward_loop drone1 (Inr ()) 100
               (replicate 12 (Iteration Recv_timeout) @ [Iteration ?it])
             = Looping (loop_body ?st12 ?it)"
    unfolding evs by (simp add: forward_loop_def)
  with none show ?thesis by simp
qed

subsection \<open>C10: staggered start\<close>

text \<open>
  C10 says that a failure to start one forwarder, such as a connection error on its source
  port, is logged. \<^verbatim>\<open>start\<close> only starts the thread; the connection is made by the
  thread itself, in line 75 of \<^verbatim>\<open>_forward_loop\<close>, before the \<^verbatim>\<open>try\<close> block
  and before the first logger call, and \<^verbatim>\<open>start_all\<close> has no handler either. So the
  exception ends that thread uncaught and no record of it is written through the logger,
  while the flag \<open>running\<close> of that forwarder stays set.

  C10, as amended: for every configuration list, \<^verbatim>\<open>start_all\<close> starts a thread for
  each forwarder in configuration order and sleeps one second after each start; a
  connection error on a forwarder's source port ends that forwarder's thread with the
  exception uncaught, with no logger record and with the forwarder object unchanged, and
  since it is raised in that thread it does not keep \<^verbatim>\<open>start_all\<close> from starting the
  remaining forwarders.
\<close>

theorem start_all_staggered:
  "snd (start_all (MultiDroneForwarder cfgs) clock)
     = [Log INFO Msg_starting_all]
       @ concat (map (\<lambda>cfg. [Thread_start,
                              Log INFO (Msg_forwarder_started (cfg_drone_id cfg) (cfg_px4_port cfg)
                                          (cfg_broadcast_port cfg) (cfg_expected_sysid cfg)),
                              Sleep 1]) cfgs)
       @ [Log INFO (Msg_started_all (length cfgs))]
   \<and> list_all running (fst (start_all (MultiDroneForwarder cfgs) clock))
   \<and> length (fst (start_all (MultiDroneForwarder cfgs) clock)) = length cfgs
   \<and> forward_loop s (Inl e) t0 evs = Uncaught e s []
   \<and> result_out (forward_loop s (Inl e) t0 evs) = []
   \<and> result_self (forward_loop s (Inl e) t0 evs) = s"
proof -
  have len: "length (MultiDroneForwarder cfgs) = length cfgs"
    by (simp add: MultiDroneForwarder_def)
  from start_each_fresh [of 0 clock cfgs] show ?thesis
    by (simp add: start_all_def forward_loop_def case_prod_beta len)
qed

theorem start_all_staggered_witness:
  "snd (start_all (MultiDroneForwarder main_config) wall_clock)
     = [Log INFO Msg_starting_all,
        Thread_start, Log INFO (Msg_forwarder_started 1 14540 14550 1), Sleep 1,
        Thread_start, Log INFO (Msg_forwarder_started 2 14541 14551 2), Sleep 1,
        Thread_start, Log INFO (Msg_forwarder_started 3 14542 14552 3), Sleep 1,
        Log INFO (Msg_started_all 3)]
   \<and> length (fst (start_all (MultiDroneForwarder main_config) wall_clock)) = 3"
  using start_all_staggered [of main_config wall_clock drone1 address_in_use 100 "[]"]
  by (simp add: main_config_def)

text \<open>With the configuration of \<^verbatim>\<open>main\<close>, the thread of the first forwarder fails to
  bind its port: its outcome is the uncaught exception with no effect at all, and the log of
  \<^verbatim>\<open>start_all\<close> holds five INFO records and no warning or error.\<close>

theorem connect_error_unlogged_counterexample:
  "forward_loop (hd (fst (start_all (MultiDroneForwarder main_config) wall_clock)))
       (Inl address_in_use) 101 []
     = Uncaught address_in_use (hd (fst (start_all (MultiDroneForwarder main_config) wall_clock))) []
   \<and> logged ERROR (snd (start_all (MultiDroneForwarder main_config) wall_clock)) = []
   \<and> logged WARNING (snd (start_all (MultiDroneForwarder main_config) wall_clock)) = []
   \<and> logged INFO (snd (start_all (MultiDroneForwarder main_config) wall_clock))
       = [Msg_starting_all, Msg_forwarder_started 1 14540 14550 1,
          Msg_forwarder_started 2 14541 14551 2, Msg_forwarder_started 3 14542 14552 3,
          Msg_started_all 3]"
  by (simp add: forward_loop_def start_all_def MultiDroneForwarder_def main_config_def
        start_def SystemIdTelemetryForwarder_def)

end
